theory Spec2Isabelle
  imports Complex_Main "HOL-Library.AList"
begin

section \<open>Batch search of txtai: a shallow embedding of \<open>embeddings/search.py\<close>\<close>

text \<open>
  The class \<open>Search\<close> runs a batch of queries against a dense index (\<open>ann\<close>), a sparse
  index (\<open>scoring\<close>) and, when configured, a database. The indexes, the database, the
  vectoriser and the query translator are collaborators: they are fields of the model and
  every theorem holds for whatever they compute.

  Conventions of the embedding.
  \<^item> Python's \<open>int\<close> is \<open>int\<close>. Scores and weights are Python floats: what the fusion
    accumulates is given for an arbitrary arithmetic of the scores, of which the doubles
    are one; the sorted fused lists are given over \<open>real\<close>, where rounding is not
    modelled.
  \<^item> Query texts and clause texts are \<open>string\<close>: sequences of code points below 256,
    the Latin-1 range of Python's \<open>str\<close>.
  \<^item> An exception raised by the code of \<open>search.py\<close> itself is a value \<open>Inl e\<close>.
    Collaborators are total functions.
  \<^item> Python's \<open>None\<close> is \<open>None\<close> of an option type, or the constructor \<open>PyNone\<close> of
    a returned value.
  \<^item> A \<open>dict\<close> whose iteration order matters is an association list in insertion order.
\<close>

subsection \<open>Values\<close>

datatype error = IndexError | TypeError | ValueError

text \<open>
  An identifier is a position of the index, as the indexes return it, or an entry of the
  table \<open>config["ids"]\<close>.
\<close>

datatype 'e uid = Position int | Identifier 'e

type_synonym hits = "(int \<times> real) list"

type_synonym 'e ranked = "('e uid \<times> real) list"

text \<open>\<open>weights\<close> is one number or a sequence of two: the dense and the sparse weight.\<close>

datatype weights = Scalar real | Pair real real

text \<open>What \<open>database.parse\<close> returns: a dict with optional string-valued clauses.\<close>

record parsed =
  select_clause :: "string option"
  similar_clauses :: "string list list option"
  where_clause :: "string option"
  limit_clause :: "string option"

record scoring_index =
  batchsearch :: "string list \<Rightarrow> int \<Rightarrow> hits list"
  isnormalized :: "nat \<Rightarrow> bool"

text \<open>
  \<open>isnormalized\<close> is a method call, so its answer is a function of the number of earlier
  calls within one run of \<open>search\<close>: \<open>isnormalized sc k\<close> is the answer to call number
  \<open>k\<close>, counted from 0. A collaborator with a fixed flag \<open>b\<close> is \<open>\<lambda>_. b\<close>.
\<close>

record ('e, 'r) database =
  db_parse :: "string \<Rightarrow> parsed"
  db_search :: "parsed \<Rightarrow> 'e ranked list \<Rightarrow> int \<Rightarrow> 'r"

text \<open>
  The attributes of a \<open>Search\<close> object, as \<open>__init__\<close> aliases them. \<open>scoring\<close> is
  \<open>None\<close> unless the embeddings are sparse; \<open>ids\<close> is \<open>config["ids"]\<close>, \<open>None\<close> when the
  key is absent; \<open>batchtransform\<close> receives the queries (the code wraps each one as
  \<open>(None, query, None)\<close>) and returns their vectors; \<open>ann\<close> is the method \<open>search\<close> of
  the dense index. The last field is not an attribute but the setting of the interpreter
  the object runs in, \<open>sys.get_int_max_str_digits()\<close>: the largest number of digits
  \<open>int(str)\<close> converts, \<open>None\<close> where there is no such limit.
\<close>

record ('v, 'e, 'r) search_obj =
  indexids :: bool
  ann :: "('v list \<Rightarrow> int \<Rightarrow> hits list) option"
  batchtransform :: "string list \<Rightarrow> 'v list"
  ids :: "'e list option"
  database :: "('e, 'r) database option"
  query :: "(string \<Rightarrow> string) option"
  scoring :: "scoring_index option"
  max_str_digits :: "nat option"

subsection \<open>Python primitives\<close>

text \<open>\<open>xs[i]\<close>: a negative index counts from the end, out of range raises.\<close>

definition getitem :: "'a list \<Rightarrow> int \<Rightarrow> error + 'a" where
  "getitem xs i =
     (if 0 \<le> i \<and> i < int (length xs) then Inr (xs ! nat i)
      else if i < 0 \<and> - int (length xs) \<le> i then Inr (xs ! nat (int (length xs) + i))
      else Inl IndexError)"

text \<open>\<open>xs[:n]\<close>: a negative \<open>n\<close> drops the last \<open>-n\<close> elements.\<close>

definition slice_to :: "int \<Rightarrow> 'a list \<Rightarrow> 'a list" where
  "slice_to n xs =
     (if 0 \<le> n then take (nat n) xs else take (nat (int (length xs) + n)) xs)"

text \<open>A comprehension whose body may raise stops at the first exception.\<close>

fun map_raise :: "('a \<Rightarrow> error + 'b) \<Rightarrow> 'a list \<Rightarrow> error + 'b list" where
  "map_raise f [] = Inr []"
| "map_raise f (x # xs) =
     (case f x of
        Inl e \<Rightarrow> Inl e
      | Inr y \<Rightarrow> (case map_raise f xs of Inl e \<Rightarrow> Inl e | Inr ys \<Rightarrow> Inr (y # ys)))"

text \<open>
  \<open>sorted(items, key=lambda x: x[1], reverse=True)\<close>: Python's sort is stable and
  \<open>reverse=True\<close> keeps the original order of elements with equal keys, which is the
  stable ascending sort on the negated key.
\<close>

definition sorted_desc :: "('k \<times> real) list \<Rightarrow> ('k \<times> real) list" where
  "sorted_desc items = sort_key (\<lambda>x. - snd x) items"

subsection \<open>Hybrid fusion (\<open>Search.search\<close>, lines 82 to 107)\<close>

text \<open>
  The operations of the loops on scores and weights: the constant \<open>0.0\<close>, the sum of
  \<open>+=\<close>, the product \<open>*\<close>, the quotient \<open>1.0 / k\<close> for a rank \<open>k\<close>, and the test
  \<open>> 0\<close>. Nothing is assumed of them: the doubles of Python, whose sum rounds and is not
  associative, are one such arithmetic, the reals another.
\<close>

record 'f arithmetic =
  fzero :: 'f
  fadd :: "'f \<Rightarrow> 'f \<Rightarrow> 'f"
  fmul :: "'f \<Rightarrow> 'f \<Rightarrow> 'f"
  freciprocal :: "nat \<Rightarrow> 'f"
  fpositive :: "'f \<Rightarrow> bool"

text \<open>
  The innermost loop, \<open>for r, (uid, score) in enumerate(scores)\<close>. The state is the dict
  \<open>uids\<close> and the number of calls of \<open>isnormalized\<close> made so far. \<open>AList.update\<close> stores
  a new key at the end, as a Python dict does; \<open>AList.map_entry\<close> is \<open>uids[uid] += x\<close>
  on a key that is present, which the initialisation just before guarantees.
\<close>

fun visit_with ::
  "'f arithmetic \<Rightarrow> (nat \<Rightarrow> bool) \<Rightarrow> 'f \<Rightarrow> nat \<Rightarrow> ('k \<times> 'f) list
     \<Rightarrow> ('k \<times> 'f) list \<times> nat \<Rightarrow> ('k \<times> 'f) list \<times> nat" where
  "visit_with A isn w r [] (uids, n) = (uids, n)"
| "visit_with A isn w r ((uid, score) # rest) (uids, n) =
     (let uids1 = (if map_of uids uid = None then AList.update uid (fzero A) uids else uids);
          uids2 = (if isn n
                   then AList.map_entry uid (\<lambda>x. fadd A x (fmul A score w)) uids1
                   else AList.map_entry uid
                          (\<lambda>x. fadd A x (fmul A (freciprocal A (r + 1)) w)) uids1)
      in visit_with A isn w (Suc r) rest (uids2, Suc n))"

text \<open>One side of a query: \<open>enumerate(scores if weights[v] > 0 else [])\<close>.\<close>

definition side_with ::
  "'f arithmetic \<Rightarrow> (nat \<Rightarrow> bool) \<Rightarrow> 'f \<Rightarrow> ('k \<times> 'f) list
     \<Rightarrow> ('k \<times> 'f) list \<times> nat \<Rightarrow> ('k \<times> 'f) list \<times> nat" where
  "side_with A isn w scores st = visit_with A isn w 0 (if fpositive A w then scores else []) st"

text \<open>
  \<open>for v, scores in enumerate(vectors)\<close> on a fresh dict: the dense list with
  \<open>weights[0]\<close>, then the sparse list with \<open>weights[1]\<close>.
\<close>

definition accumulate_with ::
  "'f arithmetic \<Rightarrow> (nat \<Rightarrow> bool) \<Rightarrow> 'f \<times> 'f \<Rightarrow> ('k \<times> 'f) list \<times> ('k \<times> 'f) list
     \<Rightarrow> nat \<Rightarrow> ('k \<times> 'f) list \<times> nat" where
  "accumulate_with A isn ws vectors n =
     side_with A isn (snd ws) (snd vectors) (side_with A isn (fst ws) (fst vectors) ([], n))"

text \<open>The same three loops over the reals, for the order of the fused lists.\<close>

definition real_arithmetic :: "real arithmetic" where
  "real_arithmetic =
     \<lparr>fzero = 0, fadd = (+), fmul = (*), freciprocal = (\<lambda>k. 1 / real k),
      fpositive = (\<lambda>w. w > 0)\<rparr>"

fun visit ::
  "(nat \<Rightarrow> bool) \<Rightarrow> real \<Rightarrow> nat \<Rightarrow> ('k \<times> real) list
     \<Rightarrow> ('k \<times> real) list \<times> nat \<Rightarrow> ('k \<times> real) list \<times> nat" where
  "visit isn w r [] (uids, n) = (uids, n)"
| "visit isn w r ((uid, score) # rest) (uids, n) =
     (let uids1 = (if map_of uids uid = None then AList.update uid 0 uids else uids);
          uids2 = (if isn n
                   then AList.map_entry uid (\<lambda>x. x + score * w) uids1
                   else AList.map_entry uid (\<lambda>x. x + (1 / (real r + 1)) * w) uids1)
      in visit isn w (Suc r) rest (uids2, Suc n))"

definition side ::
  "(nat \<Rightarrow> bool) \<Rightarrow> real \<Rightarrow> ('k \<times> real) list
     \<Rightarrow> ('k \<times> real) list \<times> nat \<Rightarrow> ('k \<times> real) list \<times> nat" where
  "side isn w scores st = visit isn w 0 (if w > 0 then scores else []) st"

definition accumulate ::
  "(nat \<Rightarrow> bool) \<Rightarrow> real \<times> real \<Rightarrow> ('k \<times> real) list \<times> ('k \<times> real) list
     \<Rightarrow> nat \<Rightarrow> ('k \<times> real) list \<times> nat" where
  "accumulate isn ws vectors n =
     side isn (snd ws) (snd vectors) (side isn (fst ws) (fst vectors) ([], n))"

text \<open>The body of \<open>for vectors in zip(dense, sparse)\<close>: accumulate, sort, truncate.\<close>

definition fuse ::
  "(nat \<Rightarrow> bool) \<Rightarrow> real \<times> real \<Rightarrow> int \<Rightarrow> ('k \<times> real) list \<times> ('k \<times> real) list
     \<Rightarrow> nat \<Rightarrow> ('k \<times> real) list \<times> nat" where
  "fuse isn ws limit vectors n =
     (let (uids, n') = accumulate isn ws vectors n
      in (slice_to limit (sorted_desc uids), n'))"

fun fuse_all ::
  "(nat \<Rightarrow> bool) \<Rightarrow> real \<times> real \<Rightarrow> int \<Rightarrow> (('k \<times> real) list \<times> ('k \<times> real) list) list
     \<Rightarrow> nat \<Rightarrow> ('k \<times> real) list list \<times> nat" where
  "fuse_all isn ws limit [] n = ([], n)"
| "fuse_all isn ws limit (vectors # rest) n =
     (let (result, n1) = fuse isn ws limit vectors n;
          (results, n2) = fuse_all isn ws limit rest n1
      in (result # results, n2))"

text \<open>\<open>if isinstance(weights, (int, float)): weights = [weights, 1 - weights]\<close>\<close>

fun expand :: "weights \<Rightarrow> real \<times> real" where
  "expand (Scalar w) = (w, 1 - w)"
| "expand (Pair w0 w1) = (w0, w1)"

text \<open>
  The whole branch \<open>if dense and sparse\<close>: the fused lists, and the number of calls of
  \<open>isnormalized\<close> the branch made.
\<close>

definition hybrid ::
  "(nat \<Rightarrow> bool) \<Rightarrow> weights \<Rightarrow> int \<Rightarrow> ('k \<times> real) list list \<Rightarrow> ('k \<times> real) list list
     \<Rightarrow> ('k \<times> real) list list \<times> nat" where
  "hybrid isn weights limit dense sparse =
     fuse_all isn (expand weights) limit (zip dense sparse) 0"

subsection \<open>Index search (\<open>resolve\<close>, \<open>dense\<close>, \<open>sparse\<close>, \<open>search\<close>)\<close>

text \<open>\<open>Search.resolve\<close>\<close>

definition resolve :: "('v, 'e, 'r) search_obj \<Rightarrow> hits list \<Rightarrow> error + 'e ranked list" where
  "resolve s results =
     (case ids s of
        Some lookup \<Rightarrow>
          if \<not> indexids s
          then map_raise (map_raise (\<lambda>(i, score).
                 case getitem lookup i of
                   Inl e \<Rightarrow> Inl e
                 | Inr u \<Rightarrow> Inr (Identifier u, score))) results
          else Inr (map (map (\<lambda>(i, score). (Position i, score))) results)
      | None \<Rightarrow> Inr (map (map (\<lambda>(i, score). (Position i, score))) results))"

text \<open>\<open>Search.dense\<close>, for the index \<open>a\<close> held in \<open>self.ann\<close>.\<close>

definition dense ::
  "('v, 'e, 'r) search_obj \<Rightarrow> ('v list \<Rightarrow> int \<Rightarrow> hits list) \<Rightarrow> string list \<Rightarrow> int
     \<Rightarrow> error + 'e ranked list" where
  "dense s a queries limit =
     (let embeddings = batchtransform s queries;
          results = a embeddings limit;
          results = map (filter (\<lambda>(i, score). score > 0)) results
      in resolve s results)"

text \<open>\<open>Search.sparse\<close>, for the index \<open>sc\<close> held in \<open>self.scoring\<close>.\<close>

definition sparse ::
  "('v, 'e, 'r) search_obj \<Rightarrow> scoring_index \<Rightarrow> string list \<Rightarrow> int
     \<Rightarrow> error + 'e ranked list" where
  "sparse s sc queries limit = resolve s (batchsearch sc queries limit)"

text \<open>Truth value of \<open>None\<close> or a list.\<close>

fun truthy :: "'a list option \<Rightarrow> bool" where
  "truthy None = False"
| "truthy (Some xs) = (xs \<noteq> [])"

text \<open>
  \<open>Search.search\<close>. The result is \<open>None\<close> or a list of ranked lists. Inside the hybrid
  branch \<open>self.scoring\<close> is not \<open>None\<close>, since \<open>sparse\<close> is a non-empty list there.
\<close>

definition search ::
  "('v, 'e, 'r) search_obj \<Rightarrow> string list \<Rightarrow> int \<Rightarrow> weights
     \<Rightarrow> error + 'e ranked list option" where
  "search s queries limit weights =
     (case (case ann s of
              None \<Rightarrow> Inr None
            | Some a \<Rightarrow> map_sum id Some (dense s a queries limit)) of
        Inl e \<Rightarrow> Inl e
      | Inr dense_r \<Rightarrow>
         (case (case scoring s of
                  None \<Rightarrow> Inr None
                | Some sc \<Rightarrow> map_sum id Some (sparse s sc queries limit)) of
            Inl e \<Rightarrow> Inl e
          | Inr sparse_r \<Rightarrow>
             (case (dense_r, sparse_r, scoring s) of
                (Some d, Some sp, Some sc) \<Rightarrow>
                  if truthy dense_r \<and> truthy sparse_r
                  then Inr (Some (fst (hybrid (isnormalized sc) weights limit d sp)))
                  else Inr (if truthy dense_r then dense_r else sparse_r)
              | _ \<Rightarrow> Inr (if truthy dense_r then dense_r else sparse_r))))"

subsection \<open>Index and database search (\<open>parse\<close>, \<open>limit\<close>, \<open>extract\<close>, \<open>dbsearch\<close>, \<open>__call__\<close>)\<close>

text \<open>
  \<open>str.isdigit\<close>, on code points below 256: the decimal digits, and the superscripts
  \<open>U+00B2\<close>, \<open>U+00B3\<close> and \<open>U+00B9\<close>, which are digits that are not decimal.
\<close>

definition ord :: "char \<Rightarrow> nat" where
  "ord c = of_char c"

definition isdecimal_char :: "char \<Rightarrow> bool" where
  "isdecimal_char c = (48 \<le> ord c \<and> ord c \<le> 57)"

definition isdigit_char :: "char \<Rightarrow> bool" where
  "isdigit_char c = (isdecimal_char c \<or> ord c = 178 \<or> ord c = 179 \<or> ord c = 185)"

definition isdigit :: "string \<Rightarrow> bool" where
  "isdigit t = (t \<noteq> [] \<and> list_all isdigit_char t)"

text \<open>
  \<open>int(t)\<close> for a string \<open>t\<close> that passes \<open>isdigit\<close>, the only strings the code converts:
  the value of the decimal digits, and \<open>ValueError\<close> when a digit is not decimal or when
  there are more digits than the interpreter converts.
\<close>

definition int_of_digits :: "string \<Rightarrow> int" where
  "int_of_digits t = foldl (\<lambda>n c. 10 * n + (int (ord c) - 48)) 0 t"

definition converts :: "nat option \<Rightarrow> string \<Rightarrow> bool" where
  "converts maxdigits t =
     (list_all isdecimal_char t
      \<and> (case maxdigits of None \<Rightarrow> True | Some m \<Rightarrow> length t \<le> m))"

definition int_digits :: "nat option \<Rightarrow> string \<Rightarrow> error + int" where
  "int_digits maxdigits t =
     (if converts maxdigits t then Inr (int_of_digits t) else Inl ValueError)"

text \<open>
  \<open>str.split()\<close>: the maximal runs of characters that are not whitespace. Below 256 the
  whitespace is \<open>U+0009\<close> to \<open>U+000D\<close>, \<open>U+001C\<close> to \<open>U+0020\<close>, \<open>U+0085\<close> and
  \<open>U+00A0\<close>.
\<close>

definition isspace :: "char \<Rightarrow> bool" where
  "isspace c = (9 \<le> ord c \<and> ord c \<le> 13 \<or> 28 \<le> ord c \<and> ord c \<le> 32
                  \<or> ord c = 133 \<or> ord c = 160)"

fun split_from :: "string \<Rightarrow> string \<Rightarrow> string list" where
  "split_from tok [] = (if tok = [] then [] else [tok])"
| "split_from tok (c # cs) =
     (if isspace c
      then (if tok = [] then split_from [] cs else tok # split_from [] cs)
      else split_from (tok @ [c]) cs)"

definition split :: "string \<Rightarrow> string list" where
  "split t = split_from [] t"

text \<open>\<open>Search.parse\<close>\<close>

definition parse ::
  "('v, 'e, 'r) search_obj \<Rightarrow> ('e, 'r) database \<Rightarrow> string list \<Rightarrow> parsed list" where
  "parse s db queries =
     map (\<lambda>q. let p = db_parse db q
              in (case query s of
                    Some translate \<Rightarrow>
                      if select_clause p = None then db_parse db (translate q) else p
                  | None \<Rightarrow> p)) queries"

text \<open>
  \<open>Search.limit\<close> (here \<open>query_limit\<close>, \<open>limit\<close> being the parameter of the other
  methods). The variable \<open>l\<close> holds \<open>None\<close>, a string or, after \<open>int(l)\<close>, a
  number; \<open>l and l > qlimit\<close> compares a non-empty string with a number, which raises
  \<open>TypeError\<close>.
\<close>

datatype limit_value = Absent | Text string | Number int

definition limit_of :: "('v, 'e, 'r) search_obj \<Rightarrow> parsed \<Rightarrow> error + limit_value" where
  "limit_of s q =
     (case limit_clause q of
        None \<Rightarrow> Inr Absent
      | Some l \<Rightarrow>
          if l \<noteq> [] \<and> isdigit l
          then map_sum id Number (int_digits (max_str_digits s) l)
          else Inr (Text l))"

fun limit_from :: "('v, 'e, 'r) search_obj \<Rightarrow> int \<Rightarrow> parsed list \<Rightarrow> error + int" where
  "limit_from s qlimit [] = Inr qlimit"
| "limit_from s qlimit (q # queries) =
     (case limit_of s q of
        Inl e \<Rightarrow> Inl e
      | Inr Absent \<Rightarrow> limit_from s qlimit queries
      | Inr (Text l) \<Rightarrow> if l = [] then limit_from s qlimit queries else Inl TypeError
      | Inr (Number l) \<Rightarrow>
          limit_from s (if l \<noteq> 0 \<and> l > qlimit then l else qlimit) queries)"

definition query_limit :: "('v, 'e, 'r) search_obj \<Rightarrow> parsed list \<Rightarrow> error + int" where
  "query_limit s queries = limit_from s 0 queries"

text \<open>
  \<open>Search.extract\<close> (here \<open>extract_batch\<close>). The state of the two loops is
  \<open>(equeries, candidates)\<close>; \<open>params[0]\<close> raises \<open>IndexError\<close> on a clause without
  arguments, and \<open>int(params[1])\<close> may raise \<open>ValueError\<close>.
\<close>

fun extract_similar ::
  "nat option \<Rightarrow> nat \<Rightarrow> string list list \<Rightarrow> (nat \<times> string) list \<times> int
     \<Rightarrow> error + (nat \<times> string) list \<times> int" where
  "extract_similar maxdigits x [] st = Inr st"
| "extract_similar maxdigits x (params # rest) (equeries, candidates) =
     (case params of
        [] \<Rightarrow> Inl IndexError
      | p0 # ps \<Rightarrow>
          (case (case ps of
                   [] \<Rightarrow> Inr candidates
                 | p1 # _ \<Rightarrow>
                     if isdigit p1
                     then (case int_digits maxdigits p1 of
                             Inl e \<Rightarrow> Inl e
                           | Inr v \<Rightarrow> Inr (if v > candidates then v else candidates))
                     else Inr candidates) of
             Inl e \<Rightarrow> Inl e
           | Inr candidates' \<Rightarrow>
               extract_similar maxdigits x rest (equeries @ [(x, p0)], candidates')))"

fun extract_from ::
  "nat option \<Rightarrow> nat \<Rightarrow> parsed list \<Rightarrow> (nat \<times> string) list \<times> int
     \<Rightarrow> error + (nat \<times> string) list \<times> int" where
  "extract_from maxdigits x [] st = Inr st"
| "extract_from maxdigits x (q # queries) st =
     (case similar_clauses q of
        None \<Rightarrow> extract_from maxdigits (Suc x) queries st
      | Some clauses \<Rightarrow>
          (case extract_similar maxdigits x clauses st of
             Inl e \<Rightarrow> Inl e
           | Inr st' \<Rightarrow> extract_from maxdigits (Suc x) queries st'))"

definition multitoken :: "parsed list \<Rightarrow> bool" where
  "multitoken queries =
     list_ex (\<lambda>q. case where_clause q of
                    None \<Rightarrow> False
                  | Some w \<Rightarrow> w \<noteq> [] \<and> length (split w) > 1) queries"

definition extract_batch ::
  "('v, 'e, 'r) search_obj \<Rightarrow> parsed list \<Rightarrow> int \<Rightarrow> error + (nat \<times> string) list \<times> int" where
  "extract_batch s queries limit =
     (case extract_from (max_str_digits s) 0 queries ([], 0) of
        Inl e \<Rightarrow> Inl e
      | Inr (equeries, candidates) \<Rightarrow>
          if candidates = 0
          then Inr (equeries, if multitoken queries then limit * 10 else limit)
          else Inr (equeries, candidates))"

text \<open>
  \<open>Search.dbsearch\<close>, for the database \<open>db\<close> held in \<open>self.database\<close>.
  \<open>enumerate(search)\<close> raises \<open>TypeError\<close> when the index search returned \<open>None\<close>.
\<close>

definition dbsearch ::
  "('v, 'e, 'r) search_obj \<Rightarrow> ('e, 'r) database \<Rightarrow> string list \<Rightarrow> int \<Rightarrow> weights
     \<Rightarrow> error + 'r list" where
  "dbsearch s db queries limit weights =
     (let queries = parse s db queries
      in case query_limit s queries of
           Inl e \<Rightarrow> Inl e
         | Inr qlimit \<Rightarrow>
             (let limit = max limit qlimit
              in case extract_batch s queries limit of
                   Inl e \<Rightarrow> Inl e
                 | Inr (equeries, candidates) \<Rightarrow>
                     (case (if equeries \<noteq> []
                            then search s (map snd equeries) candidates weights
                            else Inr (Some [])) of
                        Inl e \<Rightarrow> Inl e
                      | Inr None \<Rightarrow> if queries = [] then Inr [] else Inl TypeError
                      | Inr (Some found) \<Rightarrow>
                          Inr (map (\<lambda>(x, q).
                                 let indices = map fst (filter (\<lambda>(i, (y, _)). x = y)
                                                 (enumerate 0 equeries))
                                 in db_search db q
                                      (map snd (filter (\<lambda>(i, r). i \<in> set indices)
                                         (enumerate 0 found))) limit)
                               (enumerate 0 queries)))))"

text \<open>
  \<open>Search.__call__\<close>. \<open>limit\<close> and \<open>weights\<close> are \<open>None\<close> when the caller leaves them
  out; a limit of \<open>0\<close> is replaced by the default as well.
\<close>

datatype ('e, 'r) batch_result = PyNone | Ranked "'e ranked list" | Rows "'r list"

fun returned :: "'e ranked list option \<Rightarrow> ('e, 'r) batch_result" where
  "returned None = PyNone"
| "returned (Some rs) = Ranked rs"

definition call ::
  "('v, 'e, 'r) search_obj \<Rightarrow> string list \<Rightarrow> int option \<Rightarrow> weights option
     \<Rightarrow> error + ('e, 'r) batch_result" where
  "call s queries limit weights =
     (let limit = (case limit of None \<Rightarrow> 3 | Some l \<Rightarrow> if l \<noteq> 0 then l else 3);
          weights = (case weights of None \<Rightarrow> Scalar (1 / 2) | Some w \<Rightarrow> w)
      in if ann s = None \<and> scoring s = None
         then Inr (Ranked (replicate (length queries) []))
         else (case database s of
                 Some db \<Rightarrow>
                   if \<not> indexids s
                   then map_sum id Rows (dbsearch s db queries limit weights)
                   else map_sum id returned (search s queries limit weights)
               | None \<Rightarrow> map_sum id returned (search s queries limit weights)))"

subsection \<open>Auxiliary definitions for the statements\<close>

text \<open>
  One pass of the body of the innermost loop adds \<open>x\<close> to the score held for \<open>uid\<close>,
  after initialising it when the key is new.
\<close>

definition add_score :: "'k \<Rightarrow> real \<Rightarrow> ('k \<times> real) list \<Rightarrow> ('k \<times> real) list" where
  "add_score uid x uids =
     AList.map_entry uid (\<lambda>v. v + x)
       (if map_of uids uid = None then AList.update uid 0 uids else uids)"

text \<open>The score a dict holds for an identifier, \<open>0\<close> for an absent one.\<close>

definition held :: "('k \<times> real) list \<Rightarrow> 'k \<Rightarrow> real" where
  "held uids u = (case map_of uids u of None \<Rightarrow> 0 | Some x \<Rightarrow> x)"

text \<open>The entries of a side that are visited: all of them, or none when the weight is not positive.\<close>

definition visited :: "real \<Rightarrow> ('k \<times> real) list \<Rightarrow> ('k \<times> real) list" where
  "visited w scores = (if w > 0 then scores else [])"





text \<open>
  The fusion as the specification words it: the flag is read once, before the loops, and
  its value \<open>b\<close> selects the formula of every entry.
\<close>

fun combine_once ::
  "bool \<Rightarrow> real \<Rightarrow> nat \<Rightarrow> ('k \<times> real) list \<Rightarrow> ('k \<times> real) list \<Rightarrow> ('k \<times> real) list" where
  "combine_once b w r [] uids = uids"
| "combine_once b w r ((uid, score) # rest) uids =
     combine_once b w (Suc r) rest
       (add_score uid (if b then score * w else (1 / (real r + 1)) * w) uids)"

definition fuse_once ::
  "bool \<Rightarrow> real \<times> real \<Rightarrow> int \<Rightarrow> ('k \<times> real) list \<times> ('k \<times> real) list \<Rightarrow> ('k \<times> real) list" where
  "fuse_once b ws limit vectors =
     slice_to limit (sorted_desc
       (combine_once b (snd ws) 0 (visited (snd ws) (snd vectors))
          (combine_once b (fst ws) 0 (visited (fst ws) (fst vectors)) [])))"

definition hybrid_once ::
  "bool \<Rightarrow> weights \<Rightarrow> int \<Rightarrow> ('k \<times> real) list list \<Rightarrow> ('k \<times> real) list list
     \<Rightarrow> ('k \<times> real) list list" where
  "hybrid_once b weights limit ds sp = map (fuse_once b (expand weights) limit) (zip ds sp)"

text \<open>The number of entries a hybrid fusion visits.\<close>

definition entries_visited ::
  "real \<times> real \<Rightarrow> (('k \<times> real) list \<times> ('k \<times> real) list) list \<Rightarrow> nat" where
  "entries_visited ws vs =
     (\<Sum>(d, s) \<leftarrow> vs. length (visited (fst ws) d) + length (visited (snd ws) s))"

text \<open>A collaborator whose answer changes from one call to the next.\<close>

definition alternating :: "nat \<Rightarrow> bool" where
  "alternating k = even k"

text \<open>
  A string of decimal digits (\<open>str.isdecimal\<close>): what \<open>int\<close> reads as a number among
  the strings that pass \<open>isdigit\<close>.
\<close>

definition isdecimal :: "string \<Rightarrow> bool" where
  "isdecimal t = (t \<noteq> [] \<and> list_all isdecimal_char t)"

text \<open>
  The similarity clauses of a batch, in order; the second arguments among them that are
  strings of decimal digits, as numbers; and those of them that are positive.
\<close>

definition all_clauses :: "parsed list \<Rightarrow> string list list" where
  "all_clauses queries =
     concat (map (\<lambda>q. case similar_clauses q of None \<Rightarrow> [] | Some clauses \<Rightarrow> clauses) queries)"

definition candidate_arguments :: "string list list \<Rightarrow> int list" where
  "candidate_arguments clauses =
     map (\<lambda>params. int_of_digits (params ! 1))
       (filter (\<lambda>params. length params > 1 \<and> isdecimal (params ! 1)) clauses)"

definition explicit_candidates :: "parsed list \<Rightarrow> int list" where
  "explicit_candidates queries =
     filter (\<lambda>v. v > 0) (candidate_arguments (all_clauses queries))"

text \<open>
  The number of whitespace-separated tokens of a text, counted as the positions where a
  character that is not whitespace begins the text or follows whitespace.
\<close>

definition token_count :: "string \<Rightarrow> nat" where
  "token_count w =
     length (filter (\<lambda>(p, c). isspace p \<and> \<not> isspace c) (zip (CHR '' '' # w) w))"

text \<open>The limit clauses of a batch that are strings of decimal digits, as numbers.\<close>

definition explicit_limits :: "parsed list \<Rightarrow> int list" where
  "explicit_limits queries =
     concat (map (\<lambda>q. case limit_clause q of
                         None \<Rightarrow> []
                       | Some l \<Rightarrow> if isdecimal l then [int_of_digits l] else []) queries)"

text \<open>A collaborator that gives the same answer at every call.\<close>

definition always :: "bool \<Rightarrow> nat \<Rightarrow> bool" where
  "always b k = b"

subsection \<open>Example inputs\<close>

definition example_dense :: "(nat \<times> real) list list" where
  "example_dense = [[(1, 9 / 10), (2, 1 / 10)]]"

definition example_sparse :: "(nat \<times> real) list list" where
  "example_sparse = [[(2, 8 / 10), (3, 3 / 10)]]"


text \<open>A \<open>Search\<close> object with no index at all.\<close>

definition no_index :: "(string, string, unit) search_obj" where
  "no_index =
     \<lparr>indexids = False, ann = None, batchtransform = (\<lambda>queries. queries), ids = None,
      database = None, query = None, scoring = None,
      max_str_digits = Some 4300\<rparr>"

text \<open>A dense index and a sparse index that answer every query with the same hits.\<close>

definition example_ann :: "string list \<Rightarrow> int \<Rightarrow> hits list" where
  "example_ann vectors k = map (\<lambda>v. [(0, 9 / 10), (1, 1 / 10), (2, 0)]) vectors"

definition example_scoring :: scoring_index where
  "example_scoring =
     \<lparr>batchsearch = (\<lambda>queries k. map (\<lambda>q. [(1, 8 / 10), (2, 3 / 10)]) queries),
      isnormalized = always True\<rparr>"

definition hybrid_index :: "(string, string, unit) search_obj" where
  "hybrid_index =
     \<lparr>indexids = False, ann = Some example_ann, batchtransform = (\<lambda>queries. queries),
      ids = None, database = None, query = None, scoring = Some example_scoring,
      max_str_digits = Some 4300\<rparr>"

text \<open>A \<open>Search\<close> object with a dense index only, and a table of identifiers.\<close>

definition dense_only :: "(string, string, unit) search_obj" where
  "dense_only =
     \<lparr>indexids = False, ann = Some example_ann, batchtransform = (\<lambda>queries. queries),
      ids = Some [''a'', ''b'', ''c''], database = None, query = None, scoring = None,
      max_str_digits = Some 4300\<rparr>"

text \<open>Two parsed queries: two similarity clauses with candidate arguments, and one without.\<close>

definition example_parsed :: "parsed list" where
  "example_parsed =
     [\<lparr>select_clause = Some ''id'',
       similar_clauses = Some [[''cats'', ''5''], [''dogs'', ''20'']],
       where_clause = Some ''similar(cats, 5) and similar(dogs, 20)'',
       limit_clause = Some ''7''\<rparr>,
      \<lparr>select_clause = Some ''id'', similar_clauses = Some [[''birds'']],
       where_clause = None, limit_clause = None\<rparr>]"

text \<open>
  A database whose parser finds the limit clause \<open>abc\<close> in one query text and a single
  similarity clause in every other, and a \<open>Search\<close> object with that database and a
  dense index.
\<close>

definition example_database :: "(string, (string uid \<times> real) list) database" where
  "example_database =
     \<lparr>db_parse = (\<lambda>q. if q = ''select id from txtai limit abc''
                       then \<lparr>select_clause = Some ''id'', similar_clauses = None,
                             where_clause = None, limit_clause = Some ''abc''\<rparr>
                       else \<lparr>select_clause = None, similar_clauses = Some [[q]],
                             where_clause = None, limit_clause = None\<rparr>),
      db_search = (\<lambda>q found k. concat found)\<rparr>"

definition database_index :: "(string, string, (string uid \<times> real) list) search_obj" where
  "database_index =
     \<lparr>indexids = False, ann = Some example_ann, batchtransform = (\<lambda>queries. queries),
      ids = None, database = Some example_database, query = None, scoring = None,
      max_str_digits = Some 4300\<rparr>"

text \<open>
  A query text with a similarity clause whose second argument is the superscript two,
  \<open>U+00B2\<close>, a database whose parser finds that clause in it, and a \<open>Search\<close> object with
  that database and a dense index. Then parsed queries whose filters have one token, two tokens
  separated by a space, and two tokens separated by a no-break space, \<open>U+00A0\<close>.
\<close>

definition superscript_parsed :: parsed where
  "superscript_parsed =
     \<lparr>select_clause = Some ''id'', similar_clauses = Some [[''cats'', [CHR 0xB2]]],
      where_clause = Some (''similar(cats, '' @ [CHR 0xB2] @ '')''), limit_clause = None\<rparr>"

definition superscript_query :: string where
  "superscript_query = ''select id from txtai where similar(cats, '' @ [CHR 0xB2] @ '')''"

definition superscript_database :: "(string, (string uid \<times> real) list) database" where
  "superscript_database =
     \<lparr>db_parse = (\<lambda>q. if q = superscript_query
                       then superscript_parsed
                       else \<lparr>select_clause = None, similar_clauses = Some [[q]],
                             where_clause = None, limit_clause = None\<rparr>),
      db_search = (\<lambda>q found k. concat found)\<rparr>"

definition superscript_index :: "(string, string, (string uid \<times> real) list) search_obj" where
  "superscript_index =
     \<lparr>indexids = False, ann = Some example_ann, batchtransform = (\<lambda>queries. queries),
      ids = None, database = Some superscript_database, query = None, scoring = None,
      max_str_digits = Some 4300\<rparr>"

definition filtered :: "string \<Rightarrow> parsed" where
  "filtered w =
     \<lparr>select_clause = Some ''id'', similar_clauses = Some [[''cats'']],
      where_clause = Some w, limit_clause = None\<rparr>"

section \<open>Properties\<close>

subsection \<open>The innermost loop\<close>

lemma visit_Cons:
  "visit isn w r ((uid, score) # rest) (uids, n) =
     visit isn w (Suc r) rest
       (add_score uid (if isn n then score * w else (1 / (real r + 1)) * w) uids, Suc n)"
  by (simp add: add_score_def Let_def)

lemma map_of_add_score:
  "map_of (add_score uid x uids) = (map_of uids)(uid \<mapsto> held uids uid + x)"
  by (auto simp: add_score_def held_def AList.map_of_map_entry AList.update_conv' fun_eq_iff
           split: option.splits)

lemma keys_add_score: "fst ` set (add_score uid x uids) = insert uid (fst ` set uids)"
  by (auto simp: add_score_def AList.dom_map_entry AList.dom_update map_of_eq_None_iff)

lemma distinct_add_score:
  "distinct (map fst uids) \<Longrightarrow> distinct (map fst (add_score uid x uids))"
  by (simp add: add_score_def AList.distinct_map_entry AList.distinct_update)

lemma held_add_score:
  "held (add_score uid x uids) u = (if u = uid then held uids u + x else held uids u)"
  by (simp add: held_def map_of_add_score)

lemma map_of_held:
  "map_of uids u = (if u \<in> fst ` set uids then Some (held uids u) else None)"
  by (auto simp: held_def map_of_eq_None_iff split: option.splits)

lemma visit_calls: "snd (visit isn w r xs (uids, n)) = n + length xs"
  by (induction xs arbitrary: uids n r) (auto simp: visit_Cons simp del: visit.simps(2))

lemma visit_keys:
  "fst ` set (fst (visit isn w r xs (uids, n))) = fst ` set uids \<union> fst ` set xs"
proof (induction xs arbitrary: uids n r)
  case Nil
  show ?case by simp
next
  case (Cons x xs)
  show ?case
    by (cases x) (simp add: visit_Cons keys_add_score Cons.IH del: visit.simps(2))
qed

lemma visit_distinct:
  "distinct (map fst uids) \<Longrightarrow> distinct (map fst (fst (visit isn w r xs (uids, n))))"
  by (induction xs arbitrary: uids n r)
     (auto simp: visit_Cons distinct_add_score simp del: visit.simps(2))

subsection \<open>One query\<close>

lemma side_visited: "side isn w xs st = visit isn w 0 (visited w xs) st"
  by (simp add: side_def visited_def)

lemma side_calls: "snd (side isn w xs (uids, n)) = n + length (visited w xs)"
  by (simp add: side_visited visit_calls)

lemma side_keys:
  "fst ` set (fst (side isn w xs (uids, n))) = fst ` set uids \<union> fst ` set (visited w xs)"
  by (simp add: side_visited visit_keys)

lemma side_distinct:
  "distinct (map fst uids) \<Longrightarrow> distinct (map fst (fst (side isn w xs (uids, n))))"
  by (simp add: side_visited visit_distinct)

lemma accumulate_calls:
  "snd (accumulate isn ws vectors n) =
     n + length (visited (fst ws) (fst vectors)) + length (visited (snd ws) (snd vectors))"
proof -
  obtain uids m where st: "side isn (fst ws) (fst vectors) ([], n) = (uids, m)"
    by (cases "side isn (fst ws) (fst vectors) ([], n)")
  have "m = n + length (visited (fst ws) (fst vectors))"
    using side_calls [of isn "fst ws" "fst vectors" "[]" n] by (simp add: st)
  then show ?thesis
    by (simp add: accumulate_def st side_calls)
qed

lemma accumulate_distinct: "distinct (map fst (fst (accumulate isn ws vectors n)))"
proof -
  obtain uids m where st: "side isn (fst ws) (fst vectors) ([], n) = (uids, m)"
    by (cases "side isn (fst ws) (fst vectors) ([], n)")
  have "distinct (map fst uids)"
    using side_distinct [of "[]" isn "fst ws" "fst vectors" n] by (simp add: st)
  then show ?thesis
    by (simp add: accumulate_def st side_distinct)
qed

lemma fst_fuse:
  "fst (fuse isn ws limit vectors n) =
     slice_to limit (sorted_desc (fst (accumulate isn ws vectors n)))"
  by (simp add: fuse_def case_prod_beta)

lemma snd_fuse: "snd (fuse isn ws limit vectors n) = snd (accumulate isn ws vectors n)"
  by (simp add: fuse_def case_prod_beta)

lemma length_slice_to: "0 \<le> n \<Longrightarrow> int (length (slice_to n xs)) \<le> n"
  by (simp add: slice_to_def)

lemma distinct_keys_sorted_desc:
  "distinct (map fst xs) \<Longrightarrow> distinct (map fst (sorted_desc xs))"
  by (simp add: sorted_desc_def distinct_map)

lemma distinct_keys_slice_to:
  "distinct (map fst xs) \<Longrightarrow> distinct (map fst (slice_to n xs))"
  by (simp add: slice_to_def distinct_map distinct_take inj_on_def)
     (metis in_set_takeD)

subsection \<open>The batch\<close>

lemma fuse_all_Cons:
  "fst (fuse_all isn ws limit (v # vs) n) =
     fst (fuse isn ws limit v n)
       # fst (fuse_all isn ws limit vs (snd (fuse isn ws limit v n)))"
  by (simp add: case_prod_beta)

lemma fuse_all_results:
  "r \<in> set (fst (fuse_all isn ws limit vs n)) \<Longrightarrow>
   \<exists>v m. v \<in> set vs \<and> r = fst (fuse isn ws limit v m)"
proof (induction vs arbitrary: n)
  case Nil
  then show ?case by simp
next
  case (Cons v vs)
  from Cons.prems consider
      "r = fst (fuse isn ws limit v n)"
    | "r \<in> set (fst (fuse_all isn ws limit vs (snd (fuse isn ws limit v n))))"
    by (auto simp: fuse_all_Cons simp del: fuse_all.simps)
  then show ?case
  proof cases
    case 1
    then show ?thesis by (intro exI [of _ v] exI [of _ n]) simp
  next
    case 2
    from Cons.IH [OF 2] obtain v' m where "v' \<in> set vs" "r = fst (fuse isn ws limit v' m)"
      by blast
    then show ?thesis by (intro exI [of _ v'] exI [of _ m]) simp
  qed
qed

lemma length_fuse_all: "length (fst (fuse_all isn ws limit vs n)) = length vs"
  by (induction vs arbitrary: n) (auto simp: case_prod_beta)

lemma example_fused:
  "fst (hybrid (always True) (Scalar (1 / 2)) 2 example_dense example_sparse) =
     [[(1, 9 / 20), (2, 9 / 20)]]"
  by code_simp

subsection \<open>Accumulated scores\<close>

lemma accumulate_keys:
  "fst ` set (fst (accumulate isn ws vectors n)) =
     fst ` set (visited (fst ws) (fst vectors)) \<union> fst ` set (visited (snd ws) (snd vectors))"
proof -
  obtain uids m where st: "side isn (fst ws) (fst vectors) ([], n) = (uids, m)"
    by (cases "side isn (fst ws) (fst vectors) ([], n)")
  have "fst ` set uids = fst ` set (visited (fst ws) (fst vectors))"
    using side_keys [of isn "fst ws" "fst vectors" "[]" n] by (simp add: st)
  then show ?thesis
    by (simp add: accumulate_def st side_keys)
qed

lemma fuse_all_nth:
  "i < length vs \<Longrightarrow>
   \<exists>m. fst (fuse_all isn ws limit vs n) ! i = fst (fuse isn ws limit (vs ! i) m)"
proof (induction vs arbitrary: i n)
  case Nil
  then show ?case by simp
next
  case (Cons v vs)
  show ?case
  proof (cases i)
    case 0
    then show ?thesis by (auto simp: fuse_all_Cons simp del: fuse_all.simps)
  next
    case (Suc j)
    with Cons.prems have "j < length vs" by simp
    from Cons.IH [OF this] show ?thesis
      by (simp add: Suc fuse_all_Cons del: fuse_all.simps)
  qed
qed










lemma visit_real: "visit isn w r xs st = visit_with real_arithmetic isn w r xs st"
proof (induction xs arbitrary: st r)
  case Nil
  show ?case by (cases st) simp
next
  case (Cons x xs)
  show ?case
    by (cases x; cases st) (simp add: Cons.IH real_arithmetic_def Let_def add.commute)
qed

lemma accumulate_real: "accumulate isn ws vectors n = accumulate_with real_arithmetic isn ws vectors n"
  by (simp add: accumulate_def accumulate_with_def side_def side_with_def visit_real
        real_arithmetic_def)

lemma hybrid_accumulates:
  "i < length ds \<Longrightarrow> i < length sp \<Longrightarrow>
   \<exists>n. fst (hybrid isn weights limit ds sp) ! i =
         slice_to limit (sorted_desc
           (fst (accumulate_with real_arithmetic isn (expand weights) (ds ! i, sp ! i) n)))"
proof -
  assume i: "i < length ds" "i < length sp"
  then have "i < length (zip ds sp)" by simp
  from fuse_all_nth [OF this, of isn "expand weights" limit 0]
  obtain n where "fst (hybrid isn weights limit ds sp) ! i =
      fst (fuse isn (expand weights) limit (ds ! i, sp ! i) n)"
    using i by (auto simp: hybrid_def)
  then show ?thesis
    by (auto simp: fst_fuse accumulate_real)
qed

subsection \<open>Reading the flag\<close>

lemma visit_combine_once:
  "\<forall>k. isn k = b \<Longrightarrow> fst (visit isn w r xs (uids, n)) = combine_once b w r xs uids"
  by (induction xs arbitrary: uids n r) (auto simp: visit_Cons simp del: visit.simps(2))

lemma fuse_fuse_once:
  assumes "\<forall>k. isn k = b"
  shows "fst (fuse isn ws limit vectors n) = fuse_once b ws limit vectors"
proof -
  obtain uids m where st:
    "visit isn (fst ws) 0 (visited (fst ws) (fst vectors)) ([], n) = (uids, m)"
    by (cases "visit isn (fst ws) 0 (visited (fst ws) (fst vectors)) ([], n)")
  have "uids = combine_once b (fst ws) 0 (visited (fst ws) (fst vectors)) []"
    using visit_combine_once [OF assms, of "fst ws" 0 "visited (fst ws) (fst vectors)" "[]" n]
    by (simp add: st)
  then show ?thesis
    by (simp add: fst_fuse fuse_once_def accumulate_def side_visited st
          visit_combine_once [OF assms])
qed

lemma fuse_all_once:
  assumes "\<forall>k. isn k = b"
  shows "fst (fuse_all isn ws limit vs n) = map (fuse_once b ws limit) vs"
  by (induction vs arbitrary: n)
     (simp_all add: fuse_all_Cons fuse_fuse_once [OF assms] del: fuse_all.simps(2))

lemma fuse_all_calls:
  "snd (fuse_all isn ws limit vs n) = n + entries_visited ws vs"
proof (induction vs arbitrary: n)
  case Nil
  show ?case by (simp add: entries_visited_def)
next
  case (Cons v vs)
  have "snd (fuse_all isn ws limit (v # vs) n) =
          snd (fuse_all isn ws limit vs (snd (fuse isn ws limit v n)))"
    by (simp add: case_prod_beta)
  then show ?case
    by (simp add: Cons.IH snd_fuse accumulate_calls entries_visited_def case_prod_beta)
qed

subsection \<open>Dense results through fusion and resolution\<close>

lemma update_absent: "map_of al k = None \<Longrightarrow> AList.update k v al = al @ [(k, v)]"
  by (induction al) (auto split: if_splits)

lemma map_entry_last:
  "map_of al k = None \<Longrightarrow> AList.map_entry k f (al @ [(k, v)]) = al @ [(k, f v)]"
  by (induction al) (auto split: if_splits)

lemma add_score_absent:
  "map_of uids uid = None \<Longrightarrow> add_score uid x uids = uids @ [(uid, x)]"
  by (simp add: add_score_def update_absent map_entry_last)

lemma visit_fresh:
  "\<forall>k. isn k \<Longrightarrow> distinct (map fst xs) \<Longrightarrow> fst ` set uids \<inter> fst ` set xs = {} \<Longrightarrow>
   fst (visit isn 1 r xs (uids, n)) = uids @ xs"
proof (induction xs arbitrary: uids n r)
  case Nil
  then show ?case by simp
next
  case (Cons x xs)
  obtain uid score where x: "x = (uid, score)" by (cases x)
  from Cons.prems have absent: "map_of uids uid = None"
    by (auto simp: x map_of_eq_None_iff)
  have "fst ` set (uids @ [(uid, score)]) \<inter> fst ` set xs = {}"
    using Cons.prems by (auto simp: x)
  with Cons.prems Cons.IH [of "uids @ [(uid, score)]" "Suc r" "Suc n"] show ?case
    by (simp add: x visit_Cons add_score_absent [OF absent] del: visit.simps(2))
qed

lemma sorted_desc_sorted: "sorted_wrt (\<ge>) (map snd xs) \<Longrightarrow> sorted_desc xs = xs"
  unfolding sorted_desc_def
  by (rule sort_key_id_if_sorted) (simp add: sorted_wrt_map)

lemma slice_to_all: "int (length xs) \<le> n \<Longrightarrow> slice_to n xs = xs"
  by (simp add: slice_to_def)

lemma fuse_dense_only:
  assumes "\<forall>k. isn k" "sorted_wrt (\<ge>) (map snd d)" "distinct (map fst d)"
    "int (length d) \<le> limit"
  shows "fst (fuse isn (1, 0) limit (d, s) n) = d"
proof -
  have "fst (visit isn 1 0 d ([], n)) = d"
    using visit_fresh [OF assms(1) assms(3), of "[]" 0 n] by simp
  then have "fst (accumulate isn (1, 0) (d, s) n) = d"
    by (cases "visit isn 1 0 d ([], n)") (simp add: accumulate_def side_def)
  then show ?thesis
    by (simp add: fst_fuse sorted_desc_sorted [OF assms(2)] slice_to_all [OF assms(4)])
qed

lemma fuse_all_dense_only:
  assumes "\<forall>k. isn k"
  shows "length sp = length ds \<Longrightarrow>
    \<forall>r \<in> set ds. sorted_wrt (\<ge>) (map snd r) \<and> distinct (map fst r) \<and> int (length r) \<le> limit \<Longrightarrow>
    fst (fuse_all isn (1, 0) limit (zip ds sp) n) = ds"
proof (induction ds arbitrary: sp n)
  case Nil
  then show ?case by simp
next
  case (Cons d ds)
  then obtain s sp' where sp: "sp = s # sp'" by (cases sp) auto
  with Cons.prems Cons.IH [of sp'] show ?case
    by (simp add: fuse_all_Cons fuse_dense_only [OF assms] del: fuse_all.simps(2))
qed

lemma map_raise_Inr:
  "map_raise f xs = Inr ys \<Longrightarrow> list_all2 (\<lambda>x y. f x = Inr y) xs ys"
  by (induction xs arbitrary: ys) (auto split: sum.splits)

lemma resolve_scores:
  assumes "resolve s results = Inr rs"
  shows "list_all2 (\<lambda>r r'. map snd r' = map snd r) results rs"
proof -
  let ?f = "\<lambda>lookup (i, score).
              case getitem lookup i of Inl e \<Rightarrow> Inl e | Inr u \<Rightarrow> Inr (Identifier u, score)"
  have inner: "map snd r' = map snd r" if "map_raise (?f lookup) r = Inr r'" for lookup r r'
  proof -
    from map_raise_Inr [OF that] have "list_all2 (\<lambda>x y. snd y = snd x) r r'"
      by (rule list_all2_mono) (auto split: sum.splits)
    then show ?thesis
      by (induction rule: list_all2_induct) auto
  qed
  show ?thesis
  proof (cases "ids s")
    case None
    with assms show ?thesis
      by (auto simp: resolve_def list_all2_conv_all_nth comp_def case_prod_beta)
  next
    case (Some lookup)
    show ?thesis
    proof (cases "indexids s")
      case True
      with Some assms show ?thesis
        by (auto simp: resolve_def list_all2_conv_all_nth comp_def case_prod_beta)
    next
      case False
      with Some assms have "map_raise (map_raise (?f lookup)) results = Inr rs"
        by (simp add: resolve_def)
      from map_raise_Inr [OF this] show ?thesis
        by (rule list_all2_mono) (rule inner)
    qed
  qed
qed

lemma resolve_positive:
  assumes "resolve s results = Inr rs" and "\<forall>r \<in> set results. \<forall>x \<in> set r. 0 < snd x"
  shows "\<forall>r \<in> set rs. \<forall>x \<in> set r. 0 < snd x"
proof (intro ballI)
  fix r' x assume r': "r' \<in> set rs" and x: "x \<in> set r'"
  from r' obtain i where i: "i < length rs" "rs ! i = r'"
    by (auto simp: in_set_conv_nth)
  from resolve_scores [OF assms(1)] i
  have len: "length results = length rs" and eq: "map snd r' = map snd (results ! i)"
    by (auto simp: list_all2_conv_all_nth)
  define r where "r = results ! i"
  from len i have r: "r \<in> set results" by (simp add: r_def)
  note eq = eq [folded r_def]
  from x have "snd x \<in> set (map snd r')" by simp
  with eq have "snd x \<in> snd ` set r" by simp
  then obtain y where "y \<in> set r" "snd y = snd x" by force
  with assms(2) r show "0 < snd x" by metis
qed

subsection \<open>Strings\<close>

lemma isdecimal_isdigit: "isdecimal t \<Longrightarrow> isdigit t"
  by (auto simp: isdecimal_def isdigit_def isdigit_char_def list_all_iff)

lemma converts_isdecimal: "converts m t \<Longrightarrow> t \<noteq> [] \<Longrightarrow> isdecimal t"
  by (simp add: converts_def isdecimal_def)

lemma isdigit_converts: "isdigit t \<Longrightarrow> converts m t \<Longrightarrow> isdecimal t"
  by (simp add: converts_def isdecimal_def isdigit_def)

lemma int_of_digits_nonneg: "isdecimal t \<Longrightarrow> 0 \<le> int_of_digits t"
proof -
  have "0 \<le> foldl (\<lambda>n c. 10 * n + (int (ord c) - 48)) n t"
    if "list_all isdecimal_char t" "0 \<le> n" for n
    using that by (induction t arbitrary: n) (auto simp: isdecimal_char_def)
  then show "isdecimal t \<Longrightarrow> 0 \<le> int_of_digits t"
    by (simp add: isdecimal_def int_of_digits_def)
qed

text \<open>\<open>split\<close> yields as many tokens as there are positions where a token begins.\<close>

lemma length_split_from:
  "(isspace p \<longleftrightarrow> tok = []) \<Longrightarrow>
   length (split_from tok cs) =
     (if tok = [] then 0 else 1)
       + length (filter (\<lambda>(p, c). isspace p \<and> \<not> isspace c) (zip (p # cs) cs))"
proof (induction cs arbitrary: p tok)
  case Nil
  then show ?case by simp
next
  case (Cons c cs)
  show ?case
  proof (cases "isspace c")
    case True
    from Cons.IH [of c "[]"] True Cons.prems show ?thesis by simp
  next
    case False
    from Cons.IH [of c "tok @ [c]"] False Cons.prems show ?thesis by simp
  qed
qed

lemma length_split: "length (split w) = token_count w"
  using length_split_from [of "CHR '' ''" "[]" w]
  by (simp add: split_def token_count_def isspace_def ord_def)

lemma multitoken_tokens:
  "multitoken queries \<longleftrightarrow>
     (\<exists>q \<in> set queries. \<exists>w. where_clause q = Some w \<and> 1 < token_count w)"
proof -
  have "(case where_clause q of None \<Rightarrow> False | Some w \<Rightarrow> w \<noteq> [] \<and> length (split w) > 1)
          \<longleftrightarrow> (\<exists>w. where_clause q = Some w \<and> 1 < token_count w)" for q
    by (cases "where_clause q") (auto simp: length_split token_count_def)
  then show ?thesis
    unfolding multitoken_def list_ex_iff by blast
qed

subsection \<open>Candidates\<close>

lemma candidate_arguments_nonneg: "\<forall>v \<in> set (candidate_arguments clauses). 0 \<le> v"
  by (auto simp: candidate_arguments_def int_of_digits_nonneg)

lemma candidate_arguments_Cons:
  "candidate_arguments ((p0 # ps) # rest) =
     (case ps of
        [] \<Rightarrow> candidate_arguments rest
      | p1 # _ \<Rightarrow> if isdecimal p1 then int_of_digits p1 # candidate_arguments rest
                  else candidate_arguments rest)"
  by (simp add: candidate_arguments_def split: list.splits)

lemma candidate_arguments_append:
  "candidate_arguments (xs @ ys) = candidate_arguments xs @ candidate_arguments ys"
  by (simp add: candidate_arguments_def)

text \<open>
  The clauses on which \<open>extract\<close> raises nothing: each has its first argument, and a
  second argument that passes \<open>isdigit\<close> is one that \<open>int\<close> converts.
\<close>

lemma extract_similar_candidates:
  "\<forall>params \<in> set clauses.
      params \<noteq> [] \<and> (1 < length params \<and> isdigit (params ! 1) \<longrightarrow> converts m (params ! 1)) \<Longrightarrow>
   \<exists>equeries'. extract_similar m x clauses (equeries, candidates) =
      Inr (equeries', fold max (candidate_arguments clauses) candidates)"
proof (induction clauses arbitrary: equeries candidates)
  case Nil
  then show ?case by (simp add: candidate_arguments_def)
next
  case (Cons params clauses)
  then obtain p0 ps where p: "params = p0 # ps" by (cases params) auto
  from Cons.prems have rest: "\<forall>params \<in> set clauses.
      params \<noteq> [] \<and> (1 < length params \<and> isdigit (params ! 1) \<longrightarrow> converts m (params ! 1))"
    by simp
  show ?case
  proof (cases ps)
    case Nil
    with Cons.IH [OF rest] show ?thesis
      by (simp add: p candidate_arguments_Cons)
  next
    case (Cons p1 ps')
    show ?thesis
    proof (cases "isdigit p1")
      case True
      with Cons.prems p Cons have c: "converts m p1" by simp
      with True have d: "isdecimal p1" by (simp add: isdigit_converts)
      from Cons.IH [OF rest] show ?thesis
        by (simp add: p Cons True c d candidate_arguments_Cons int_digits_def max_def)
    next
      case False
      then have "\<not> isdecimal p1" using isdecimal_isdigit by blast
      with Cons.IH [OF rest] False show ?thesis
        by (simp add: p Cons candidate_arguments_Cons)
    qed
  qed
qed

lemma all_clauses_Cons:
  "all_clauses (q # queries) =
     (case similar_clauses q of None \<Rightarrow> [] | Some clauses \<Rightarrow> clauses) @ all_clauses queries"
  by (simp add: all_clauses_def)

lemma extract_from_candidates:
  "\<forall>params \<in> set (all_clauses queries).
      params \<noteq> [] \<and> (1 < length params \<and> isdigit (params ! 1) \<longrightarrow> converts m (params ! 1)) \<Longrightarrow>
   \<exists>equeries'. extract_from m x queries (equeries, candidates) =
      Inr (equeries', fold max (candidate_arguments (all_clauses queries)) candidates)"
proof (induction queries arbitrary: x equeries candidates)
  case Nil
  then show ?case by (simp add: all_clauses_def candidate_arguments_def)
next
  case (Cons q queries)
  from Cons.prems have rest: "\<forall>params \<in> set (all_clauses queries).
      params \<noteq> [] \<and> (1 < length params \<and> isdigit (params ! 1) \<longrightarrow> converts m (params ! 1))"
    by (simp add: all_clauses_Cons)
  show ?case
  proof (cases "similar_clauses q")
    case None
    with Cons.IH [OF rest] show ?thesis
      by (simp add: all_clauses_Cons)
  next
    case (Some clauses)
    with Cons.prems have "\<forall>params \<in> set clauses.
        params \<noteq> [] \<and> (1 < length params \<and> isdigit (params ! 1) \<longrightarrow> converts m (params ! 1))"
      by (simp add: all_clauses_Cons)
    from extract_similar_candidates [OF this, of x equeries candidates]
    obtain eq1 where eq1: "extract_similar m x clauses (equeries, candidates) =
        Inr (eq1, fold max (candidate_arguments clauses) candidates)"
      by blast
    from Cons.IH [OF rest, of "Suc x" eq1 "fold max (candidate_arguments clauses) candidates"]
    show ?thesis
      by (simp add: Some eq1 all_clauses_Cons candidate_arguments_append)
  qed
qed

lemma fold_max_positive:
  assumes "\<forall>v \<in> set vs. (0::int) \<le> v"
  shows "fold max vs 0 =
           (if filter (\<lambda>v. v > 0) vs = [] then 0 else Max (set (filter (\<lambda>v. v > 0) vs)))"
proof -
  have m: "fold max vs 0 = Max (set (0 # vs))"
    by (simp only: Max.set_eq_fold)
  show ?thesis
  proof (cases "filter (\<lambda>v. v > 0) vs = []")
    case True
    then have "\<forall>v \<in> set vs. v = 0"
      using assms by (auto simp: filter_empty_conv order.order_iff_strict)
    then have "set (0 # vs) = {0}" by auto
    then have "Max (set (0 # vs)) = 0" by (simp only: Max_singleton)
    with True m show ?thesis by simp
  next
    case False
    let ?P = "set (filter (\<lambda>v. v > 0) vs)"
    have ne: "?P \<noteq> {}" unfolding set_empty by (rule False)
    have "Max (set (0 # vs)) = Max ?P"
    proof (rule Max_eqI)
      show "finite (set (0 # vs))" by simp
      show "Max ?P \<in> set (0 # vs)"
        using Max_in [OF _ ne] by auto
      fix y assume y: "y \<in> set (0 # vs)"
      have pos: "0 < Max ?P" using Max_in [OF _ ne] by auto
      show "y \<le> Max ?P"
      proof (cases "0 < y")
        case True
        with y have "y \<in> ?P" by auto
        then show ?thesis by (intro Max_ge) auto
      next
        case False
        with pos show ?thesis by simp
      qed
    qed
    with False m show ?thesis by simp
  qed
qed

text \<open>
  On a batch whose similarity clauses raise nothing, \<open>extract\<close> returns, as the shared
  number of candidates, the largest second argument that is a string of decimal digits
  with a positive value, over all clauses of all queries; when there is none,
  \<open>limit * 10\<close> if some query has a filter of more than one whitespace-separated token,
  and \<open>limit\<close> otherwise.
\<close>

lemma candidate_count:
  assumes "\<forall>params \<in> set (all_clauses queries).
      params \<noteq> []
      \<and> (1 < length params \<and> isdigit (params ! 1) \<longrightarrow> converts (max_str_digits s) (params ! 1))"
  shows "\<exists>equeries. extract_batch s queries limit =
      Inr (equeries,
           if explicit_candidates queries \<noteq> [] then Max (set (explicit_candidates queries))
           else if \<exists>q \<in> set queries. \<exists>w. where_clause q = Some w \<and> 1 < token_count w
                then limit * 10 else limit)"
proof -
  from extract_from_candidates [OF assms, of 0 "[]" 0]
  obtain equeries where e: "extract_from (max_str_digits s) 0 queries ([], 0) =
      Inr (equeries, fold max (candidate_arguments (all_clauses queries)) 0)"
    by blast
  have f: "fold max (candidate_arguments (all_clauses queries)) 0 =
      (if explicit_candidates queries = [] then 0 else Max (set (explicit_candidates queries)))"
    unfolding explicit_candidates_def
    by (rule fold_max_positive) (rule candidate_arguments_nonneg)
  have pos: "0 < Max (set (explicit_candidates queries))" if "explicit_candidates queries \<noteq> []"
  proof -
    from that have "Max (set (explicit_candidates queries)) \<in> set (explicit_candidates queries)"
      by (intro Max_in) auto
    then show ?thesis by (simp add: explicit_candidates_def)
  qed
  show ?thesis
    using pos by (auto simp: extract_batch_def e f multitoken_tokens)
qed

text \<open>
  The batch \<open>example_parsed\<close> has the candidate arguments \<open>5\<close> and \<open>20\<close>. Without a
  candidate argument, a filter of one token gives \<open>limit\<close>, and a filter of two tokens,
  separated by a space or by a no-break space, gives \<open>limit * 10\<close>.
\<close>

lemma candidate_count_examples:
  "explicit_candidates example_parsed = [5, 20]
   \<and> extract_batch database_index example_parsed 3
       = Inr ([(0, ''cats''), (0, ''dogs''), (1, ''birds'')], 20)
   \<and> extract_batch database_index [filtered ''flag''] 3 = Inr ([(0, ''cats'')], 3)
   \<and> extract_batch database_index [filtered ''flag = 1''] 3 = Inr ([(0, ''cats'')], 30)
   \<and> extract_batch database_index [filtered (''a'' @ [CHR 0xA0] @ ''b'')] 3
       = Inr ([(0, ''cats'')], 30)"
  by (simp add: explicit_candidates_def candidate_arguments_def all_clauses_def
        example_parsed_def isdecimal_def isdecimal_char_def isdigit_def isdigit_char_def
        int_of_digits_def int_digits_def converts_def ord_def extract_batch_def
        multitoken_def split_def isspace_def filtered_def database_index_def)

subsection \<open>Limit clauses\<close>

text \<open>
  On a batch whose limit clauses are missing, empty or strings of decimal digits that
  \<open>int\<close> converts, \<open>Search.limit\<close> returns the largest of them, or \<open>0\<close>.
\<close>

lemma limit_from_numeric:
  "\<forall>q \<in> set queries. \<forall>l. limit_clause q = Some l \<longrightarrow> converts (max_str_digits s) l \<Longrightarrow>
   0 \<le> qlimit \<Longrightarrow>
   limit_from s qlimit queries = Inr (fold max (explicit_limits queries) qlimit)"
proof (induction queries arbitrary: qlimit)
  case Nil
  then show ?case by (simp add: explicit_limits_def)
next
  case (Cons q queries)
  have e: "explicit_limits (q # queries) =
      (case limit_clause q of None \<Rightarrow> [] | Some l \<Rightarrow> if isdecimal l then [int_of_digits l] else [])
        @ explicit_limits queries"
    by (simp add: explicit_limits_def)
  from Cons.prems have rest:
    "\<forall>q \<in> set queries. \<forall>l. limit_clause q = Some l \<longrightarrow> converts (max_str_digits s) l"
    by simp
  show ?case
  proof (cases "limit_clause q")
    case None
    with Cons.IH [OF rest Cons.prems(2)] show ?thesis
      by (simp add: e limit_of_def)
  next
    case (Some l)
    with Cons.prems have c: "converts (max_str_digits s) l" by simp
    show ?thesis
    proof (cases "l = []")
      case False
      with c have d: "isdecimal l" by (rule converts_isdecimal)
      then have n: "0 \<le> int_of_digits l" by (rule int_of_digits_nonneg)
      have g: "isdigit l" using d by (rule isdecimal_isdigit)
      have m: "(if int_of_digits l \<noteq> 0 \<and> int_of_digits l > qlimit then int_of_digits l
                else qlimit) = max (int_of_digits l) qlimit"
        using n Cons.prems(2) by (auto simp: max_def)
      have "0 \<le> max (int_of_digits l) qlimit" using n by simp
      from Cons.IH [OF rest this] show ?thesis
        by (simp add: e Some False c d g limit_of_def int_digits_def m)
    next
      case True
      with Cons.IH [OF rest Cons.prems(2)] show ?thesis
        by (simp add: e Some limit_of_def isdigit_def isdecimal_def)
    qed
  qed
qed

lemma query_limit_numeric:
  "\<forall>q \<in> set queries. \<forall>l. limit_clause q = Some l \<longrightarrow> converts (max_str_digits s) l \<Longrightarrow>
   query_limit s queries = Inr (Max (set (0 # explicit_limits queries)))"
  by (simp only: query_limit_def limit_from_numeric Max.set_eq_fold order_refl)

subsection \<open>Lengths of the results\<close>

text \<open>
  The database search returns one row per query. The index search, when it returns a
  list and the indexes return one list per query, returns one list per query.
\<close>

lemma dbsearch_length:
  "dbsearch s db queries limit weights = Inr rows \<Longrightarrow> length rows = length queries"
  by (auto simp: dbsearch_def parse_def Let_def split: sum.splits option.splits if_splits prod.splits)

lemma resolve_length: "resolve s results = Inr rs \<Longrightarrow> length rs = length results"
  using resolve_scores [of s results rs] by (simp add: list_all2_lengthD)

lemma search_length:
  assumes "\<forall>a vectors. ann s = Some a \<longrightarrow> length (a vectors limit) = length vectors"
    and "length (batchtransform s queries) = length queries"
    and "\<forall>sc. scoring s = Some sc \<longrightarrow> length (batchsearch sc queries limit) = length queries"
    and "search s queries limit weights = Inr (Some rs)"
  shows "length rs = length queries"
proof -
  have d: "length ds = length queries"
    if "ann s = Some a" "map_sum id Some (dense s a queries limit) = Inr (Some ds)" for a ds
  proof -
    from that(2) have "dense s a queries limit = Inr ds"
      by (cases "dense s a queries limit") auto
    with that(1) assms(1,2) resolve_length [of s _ ds] show ?thesis
      by (simp add: dense_def)
  qed
  have p: "length sp = length queries"
    if "scoring s = Some sc" "map_sum id Some (sparse s sc queries limit) = Inr (Some sp)"
    for sc sp
  proof -
    from that(2) have "sparse s sc queries limit = Inr sp"
      by (cases "sparse s sc queries limit") auto
    with that(1) assms(3) resolve_length [of s _ sp] show ?thesis
      by (simp add: sparse_def)
  qed
  from assms(4) show ?thesis
    by (auto simp: search_def hybrid_def length_fuse_all d p
          split: option.splits sum.splits if_splits)
qed

subsection \<open>Claims\<close>

text \<open>
  C7, as amended. In a hybrid fusion with a limit that is not negative, the fused list of
  every query of the batch has at most \<open>limit\<close> entries.
\<close>

theorem fused_at_most_limit:
  "0 \<le> limit \<Longrightarrow>
   \<forall>r \<in> set (fst (hybrid isn weights limit ds sp)). int (length r) \<le> limit"
  by (auto simp: hybrid_def fst_fuse length_slice_to dest!: fuse_all_results)

theorem fused_at_most_limit_witness:
  "(0::int) \<le> 2
   \<and> fst (hybrid (always True) (Scalar (1 / 2)) 2 example_dense example_sparse)
       = [[(1, 9 / 20), (2, 9 / 20)]]
   \<and> int (length (hd (fst (hybrid (always True) (Scalar (1 / 2)) 2
                                example_dense example_sparse)))) \<le> 2"
  using fused_at_most_limit [of 2 "always True" "Scalar (1 / 2)" example_dense example_sparse]
    example_fused
  by simp

text \<open>
  C7, as the claim states it, fails for a negative limit: \<open>__call__\<close> replaces only the
  limits \<open>None\<close> and \<open>0\<close>, and \<open>[:limit]\<close> then drops the last \<open>- limit\<close> entries of
  the sorted list. With the limit \<open>- 1\<close> a fused list of three identifiers keeps two
  entries, which is more than \<open>limit\<close>.
\<close>

theorem negative_limit_counterexample:
  "call hybrid_index [''cats''] (Some (- 1)) None
       = Inr (Ranked [[(Position 0, 9 / 20), (Position 1, 9 / 20)]])
   \<and> fst (hybrid (always True) (Scalar (1 / 2)) (- 1) example_dense example_sparse)
       = [[(1, 9 / 20), (2, 9 / 20)]]
   \<and> \<not> int (length (hd (fst (hybrid (always True) (Scalar (1 / 2)) (- 1)
                                  example_dense example_sparse)))) \<le> - 1"
  by code_simp

text \<open>
  C10. In every fused list of a hybrid fusion each identifier occurs at most once, whatever
  the two input lists share.
\<close>

theorem fused_identifiers_distinct:
  "\<forall>r \<in> set (fst (hybrid isn weights limit ds sp)). distinct (map fst r)"
  by (auto simp: hybrid_def fst_fuse accumulate_distinct distinct_keys_sorted_desc
        distinct_keys_slice_to dest!: fuse_all_results)

theorem fused_identifiers_distinct_witness:
  "fst (hybrid (always True) (Scalar (1 / 2)) 2 example_dense example_sparse)
       = [[(1, 9 / 20), (2, 9 / 20)]]
   \<and> distinct (map fst (hd (fst (hybrid (always True) (Scalar (1 / 2)) 2
                                  example_dense example_sparse))))"
  using fused_identifiers_distinct
          [of "always True" "Scalar (1 / 2)" 2 example_dense example_sparse]
    example_fused
  by simp

text \<open>
  C8. With neither a dense index nor sparse scoring, a batch call returns one empty list per
  query and raises nothing, for every batch, limit and weights.
\<close>

theorem no_index_empty_results:
  "ann s = None \<Longrightarrow> scoring s = None \<Longrightarrow>
   call s queries limit weights = Inr (Ranked (replicate (length queries) []))"
  by (simp add: call_def)

theorem no_index_empty_results_witness:
  "ann no_index = None \<and> scoring no_index = None
   \<and> call no_index [''cats'', ''dogs''] None None = Inr (Ranked [[], []])"
  using no_index_empty_results [of no_index "[''cats'', ''dogs'']" None None]
  by (simp add: no_index_def)



text \<open>
  C5. With a sparse collaborator that reports normalized scores, both indexes returning one
  list per query, and dense lists that are sorted by descending score, free of repeated
  identifiers and no longer than \<open>limit\<close>: the search with weights \<open>(1, 0)\<close> (or the
  scalar \<open>1\<close>) returns exactly the dense lists.
\<close>

theorem convex_dense_only:
  assumes "ann s = Some a" and "scoring s = Some sc" and "\<forall>k. isnormalized sc k"
    and "dense s a queries limit = Inr ds" and "sparse s sc queries limit = Inr sp"
    and "length sp = length ds"
    and "\<forall>r \<in> set ds. sorted_wrt (\<ge>) (map snd r) \<and> distinct (map fst r)
                         \<and> int (length r) \<le> limit"
  shows "search s queries limit (Pair 1 0) = Inr (Some ds)
       \<and> search s queries limit (Scalar 1) = Inr (Some ds)"
proof (cases "ds = []")
  case True
  with assms show ?thesis by (simp add: search_def)
next
  case False
  with assms(6) have "sp \<noteq> []" by auto
  with False assms show ?thesis
    by (simp add: search_def hybrid_def fuse_all_dense_only)
qed

theorem convex_dense_only_witness:
  "ann hybrid_index = Some example_ann \<and> scoring hybrid_index = Some example_scoring
   \<and> dense hybrid_index example_ann [''cats''] 3 = Inr [[(Position 0, 9 / 10), (Position 1, 1 / 10)]]
   \<and> sparse hybrid_index example_scoring [''cats''] 3
        = Inr [[(Position 1, 8 / 10), (Position 2, 3 / 10)]]
   \<and> search hybrid_index [''cats''] 3 (Pair 1 0)
        = Inr (Some [[(Position 0, 9 / 10), (Position 1, 1 / 10)]])"
proof -
  have a: "ann hybrid_index = Some example_ann" "scoring hybrid_index = Some example_scoring"
    by (simp_all add: hybrid_index_def)
  have n: "\<forall>k. isnormalized example_scoring k"
    by (simp add: example_scoring_def always_def)
  have d: "dense hybrid_index example_ann [''cats''] 3
             = Inr [[(Position 0, 9 / 10), (Position 1, 1 / 10)]]"
    by (simp add: dense_def resolve_def hybrid_index_def example_ann_def)
  have s: "sparse hybrid_index example_scoring [''cats''] 3
             = Inr [[(Position 1, 8 / 10), (Position 2, 3 / 10)]]"
    by (simp add: sparse_def resolve_def hybrid_index_def example_scoring_def)
  show ?thesis
    using convex_dense_only [OF a n d s] a d s by simp
qed

text \<open>
  C6. Dense retrieval resolves the hits whose score is positive and no others: every list
  handed to \<open>resolve\<close>, every list \<open>dense\<close> returns (which is what fusion receives) and
  every list a dense-only search returns to the caller has positive scores only.
\<close>

theorem dense_scores_positive:
  "dense s a queries limit
     = resolve s (map (filter (\<lambda>(i, score). 0 < score)) (a (batchtransform s queries) limit))
   \<and> (\<forall>r \<in> set (map (filter (\<lambda>(i, score). 0 < score)) (a (batchtransform s queries) limit)).
         \<forall>x \<in> set r. 0 < snd x)
   \<and> (\<forall>ds. dense s a queries limit = Inr ds \<longrightarrow> (\<forall>r \<in> set ds. \<forall>x \<in> set r. 0 < snd x))
   \<and> (\<forall>rs weights. ann s = Some a \<longrightarrow> scoring s = None \<longrightarrow>
         search s queries limit weights = Inr (Some rs) \<longrightarrow>
         (\<forall>r \<in> set rs. \<forall>x \<in> set r. 0 < snd x))"
proof -
  let ?filtered = "map (filter (\<lambda>(i, score). 0 < score)) (a (batchtransform s queries) limit)"
  have d: "dense s a queries limit = resolve s ?filtered"
    by (simp add: dense_def)
  have p: "\<forall>r \<in> set ?filtered. \<forall>x \<in> set r. 0 < snd x"
    by auto
  have r: "\<forall>r \<in> set ds. \<forall>x \<in> set r. 0 < snd x" if "dense s a queries limit = Inr ds" for ds
    using resolve_positive [OF _ p] that d by simp
  have "\<forall>r \<in> set rs. \<forall>x \<in> set r. 0 < snd x"
    if "ann s = Some a" "scoring s = None" "search s queries limit weights = Inr (Some rs)"
    for rs weights
  proof -
    from that obtain ds where "dense s a queries limit = Inr ds" "rs = ds"
      by (cases "dense s a queries limit") (auto simp: search_def split: if_splits)
    with r show ?thesis by simp
  qed
  with d p r show ?thesis by blast
qed

theorem dense_scores_positive_witness:
  "dense dense_only example_ann [''cats''] 3
     = Inr [[(Identifier ''a'', 9 / 10), (Identifier ''b'', 1 / 10)]]
   \<and> search dense_only [''cats''] 3 (Scalar (1 / 2))
     = Inr (Some [[(Identifier ''a'', 9 / 10), (Identifier ''b'', 1 / 10)]])
   \<and> list_all (\<lambda>r. list_all (\<lambda>x. 0 < snd x) r)
       [[(Identifier ''a'', 9 / 10), (Identifier ''b'', 1 / 10 :: real)]]"
proof -
  have d: "dense dense_only example_ann [''cats''] 3
     = Inr [[(Identifier ''a'', 9 / 10), (Identifier ''b'', 1 / 10)]]"
    by (simp add: dense_def resolve_def dense_only_def example_ann_def getitem_def)
  have s: "search dense_only [''cats''] 3 (Scalar (1 / 2))
     = Inr (Some [[(Identifier ''a'', 9 / 10), (Identifier ''b'', 1 / 10)]])"
    using d by (simp add: search_def dense_only_def)
  from dense_scores_positive [of dense_only example_ann "[''cats'']" 3] d
  have "\<forall>r \<in> set [[(Identifier ''a'', 9 / 10), (Identifier ''b'', 1 / 10 :: real)]].
          \<forall>x \<in> set r. 0 < snd x"
    by blast
  with d s show ?thesis by (simp add: list_all_iff)
qed

text \<open>
  C9, as amended. In one hybrid fusion \<open>isnormalized\<close> is called once for every visited
  entry; when it gives the same answer \<open>b\<close> at every call, the fused lists are those of
  the fusion that reads the flag once.
\<close>

theorem flag_read_per_entry:
  "snd (hybrid isn weights limit ds sp) = entries_visited (expand weights) (zip ds sp)
   \<and> ((\<forall>k. isn k = b) \<longrightarrow>
        fst (hybrid isn weights limit ds sp) = hybrid_once b weights limit ds sp)"
  by (simp add: hybrid_def hybrid_once_def fuse_all_calls fuse_all_once)

theorem flag_read_per_entry_witness:
  "snd (hybrid (always True) (Scalar (1 / 2)) 2 example_dense example_sparse) = 4
   \<and> fst (hybrid (always True) (Scalar (1 / 2)) 2 example_dense example_sparse)
       = [[(1, 9 / 20), (2, 9 / 20)]]"
proof -
  have "entries_visited (expand (Scalar (1 / 2))) (zip example_dense example_sparse) = 4"
    by (simp add: entries_visited_def visited_def example_dense_def example_sparse_def)
  moreover have "hybrid_once True (Scalar (1 / 2)) 2 example_dense example_sparse
       = [[(1, 9 / 20), (2, 9 / 20)]]"
    by code_simp
  moreover have "\<forall>k. always True k = True" by (simp add: always_def)
  ultimately show ?thesis
    using flag_read_per_entry [of "always True" "Scalar (1 / 2)" 2 example_dense example_sparse True]
    by simp
qed

text \<open>
  C9 as stated fails: on one query with two dense and two sparse entries the flag is read
  four times, and a collaborator whose answers alternate gets a fused list that neither
  formula alone produces.
\<close>

theorem flag_read_once_counterexample:
  "snd (hybrid alternating (Scalar (1 / 2)) 2 example_dense example_sparse) = 4
   \<and> fst (hybrid alternating (Scalar (1 / 2)) 2 example_dense example_sparse)
       = [[(2, 13 / 20), (1, 9 / 20)]]
   \<and> hybrid_once True (Scalar (1 / 2)) 2 example_dense example_sparse
       = [[(1, 9 / 20), (2, 9 / 20)]]
   \<and> hybrid_once False (Scalar (1 / 2)) 2 example_dense example_sparse
       = [[(2, 3 / 4), (1, 1 / 2)]]"
  by code_simp

text \<open>
  C4. The claim fails on the code for a similarity clause whose second argument passes
  \<open>isdigit\<close> and is not a number for \<open>int\<close>, such as the superscript two \<open>U+00B2\<close>. No
  explicit positive integer is given, so the claim has the number of candidates default
  to \<open>limit\<close> or \<open>limit * 10\<close>; \<open>extract\<close> calls \<open>int\<close> on the argument, which raises
  \<open>ValueError\<close>, and the batch call raises.
\<close>

theorem candidate_argument_raises:
  "isdigit [CHR 0xB2]
   \<and> similar_clauses superscript_parsed = Some [[''cats'', [CHR 0xB2]]]
   \<and> explicit_candidates [superscript_parsed] = []
   \<and> extract_batch superscript_index [superscript_parsed] 3 = Inl ValueError
   \<and> call superscript_index [superscript_query] (Some 3) None = Inl ValueError"
  by (simp add: isdigit_def isdigit_char_def isdecimal_def isdecimal_char_def ord_def
        converts_def int_digits_def explicit_candidates_def candidate_arguments_def
        all_clauses_def extract_batch_def query_limit_def limit_of_def call_def dbsearch_def
        parse_def superscript_parsed_def superscript_query_def superscript_database_def
        superscript_index_def)

text \<open>
  C3. The claim fails on the code for a limit clause that is not empty and not a string of
  digits: \<open>Search.limit\<close> keeps the string after the failed \<open>isdigit\<close> test and compares
  it with a number, which raises \<open>TypeError\<close>, so the batch call raises instead of
  counting the clause as \<open>0\<close>.
\<close>

theorem limit_clause_raises:
  "query_limit database_index
      [\<lparr>select_clause = Some ''id'', similar_clauses = None,
        where_clause = None, limit_clause = Some ''abc''\<rparr>] = Inl TypeError
   \<and> call database_index [''select id from txtai limit abc''] (Some 3) None = Inl TypeError"
  by (simp add: query_limit_def limit_of_def isdigit_def isdigit_char_def isdecimal_char_def
        ord_def call_def dbsearch_def parse_def database_index_def example_database_def)

text \<open>
  C2. The claim fails on the code for the empty batch when only a dense index is
  configured: \<open>dense\<close> is the empty list, which is false, so \<open>search\<close> returns \<open>sparse\<close>,
  which is \<open>None\<close>, and the batch call returns \<open>None\<close> instead of a list of length \<open>0\<close>.
  With both indexes, with no index and with a database the empty batch gives the empty
  list.
\<close>

theorem empty_batch_returns_none:
  "call dense_only [] None None = Inr PyNone
   \<and> call hybrid_index [] None None = Inr (Ranked [])
   \<and> call no_index [] None None = Inr (Ranked [])
   \<and> call database_index [] None None = Inr (Rows [])"
  by (simp add: call_def search_def dense_def sparse_def resolve_def dbsearch_def parse_def
        query_limit_def extract_batch_def multitoken_def
        dense_only_def hybrid_index_def no_index_def database_index_def
        example_ann_def example_scoring_def example_database_def)

end
